theory Spec2Isabelle
  imports Main "HOL-Library.AList" "HOL-Library.Word"
begin

unbundle bit_operations_syntax

section \<open>refstack-client: test list normalisation, CPID fallback, submission, retrieval\<close>

text \<open>
  Python strings are modelled as \<open>string\<close> (sequences of code points below 256),
  Python dictionaries with string keys as association lists in insertion order (\<open>AList.update\<close> overwrites the value of a key
  that is present, where it stands, and appends a new key at the end, as a Python
  \<open>dict\<close> does), and exceptions as values of a sum type.
\<close>

subsection \<open>The two regular expression calls of \<open>list_parser.py\<close>\<close>

text \<open>
  \<open>_form_test_id_mappings\<close> calls \<open>re.search(r'(\[.*\])', testcase)\<close> and
  \<open>re.sub(r'\[.*\]', '', testcase)\<close>. The pattern is an opening bracket, a greedy
  \<open>.*\<close> and a closing bracket; \<open>.\<close> matches every character except the newline
  (no flag is given). An attempt at a position holding \<open>[\<close> therefore succeeds iff a
  \<open>]\<close> follows before the next newline, and then ends at the last such \<open>]\<close>.
\<close>

definition newline :: char where
  "newline = CHR 0x0A"

definition dot_run :: "string \<Rightarrow> string" where
  \<comment> \<open>the longest prefix the greedy \<open>.*\<close> can consume\<close>
  "dot_run s = takeWhile (\<lambda>c. c \<noteq> newline) s"

definition upto_last_close :: "string \<Rightarrow> string" where
  \<comment> \<open>backtracking from the end of the run to its last \<open>]\<close>, which is kept\<close>
  "upto_last_close s = rev (dropWhile (\<lambda>c. c \<noteq> CHR '']'') (rev s))"

definition match_bracket :: "string \<Rightarrow> string option" where
  \<comment> \<open>the argument is the text after a \<open>[\<close>; the result is the matched text after that \<open>[\<close>\<close>
  "match_bracket s =
     (if CHR '']'' \<in> set (dot_run s) then Some (upto_last_close (dot_run s)) else None)"

fun re_search :: "string \<Rightarrow> (string \<times> string \<times> string) option" where
  \<comment> \<open>leftmost match: the text before it, the match, the text after it\<close>
  "re_search [] = None"
| "re_search (c # cs) =
     (case (if c = CHR ''['' then match_bracket cs else None) of
        Some m \<Rightarrow> Some ([], c # m, drop (length m) cs)
      | None \<Rightarrow>
          (case re_search cs of
             None \<Rightarrow> None
           | Some (before, m, after) \<Rightarrow> Some (c # before, m, after)))"

lemma re_search_decompose:
  "re_search s = Some (b, m, a) \<Longrightarrow> s = b @ m @ a \<and> m \<noteq> []"
proof (induction s arbitrary: b m a)
  case Nil
  then show ?case by simp
next
  case (Cons c cs)
  show ?case
  proof (cases "if c = CHR ''['' then match_bracket cs else None")
    case (Some m')
    then have m': "match_bracket cs = Some m'" by (simp split: if_splits)
    then have "m' = upto_last_close (dot_run cs)"
      by (simp add: match_bracket_def split: if_splits)
    moreover have "\<exists>r. dot_run cs = upto_last_close (dot_run cs) @ r"
      unfolding upto_last_close_def
      by (metis rev_append rev_rev_ident takeWhile_dropWhile_id)
    moreover have "\<exists>r. cs = dot_run cs @ r"
      unfolding dot_run_def by (metis takeWhile_dropWhile_id)
    ultimately obtain r where "cs = m' @ r" by (metis append.assoc)
    then have "cs = m' @ drop (length m') cs" by simp
    with Cons.prems Some show ?thesis by auto
  next
    case None
    with Cons.prems obtain b' where
      "re_search cs = Some (b', m, a)" "b = c # b'"
      by (auto split: option.splits)
    with Cons.IH show ?thesis by simp
  qed
qed

lemma re_search_shorter:
  "re_search s = Some (b, m, a) \<Longrightarrow> length a < length s"
  using re_search_decompose [of s b m a] by (cases m) auto

function re_sub :: "string \<Rightarrow> string" where
  \<comment> \<open>every non-overlapping match, from the left, is replaced by the empty string\<close>
  "re_sub s =
     (case re_search s of
        None \<Rightarrow> s
      | Some (before, m, after) \<Rightarrow> before @ re_sub after)"
  by pat_completeness auto
termination
  by (relation "measure length") (auto dest: re_search_shorter)

declare re_sub.simps [simp del]

subsection \<open>\<open>TestListParser._form_test_id_mappings\<close>\<close>

type_synonym test_dict = "(string \<times> string) list"

definition form_test_id_mapping :: "test_dict \<Rightarrow> string \<Rightarrow> test_dict" where
  \<comment> \<open>the body of the loop over \<open>test_list\<close>\<close>
  "form_test_id_mapping test_mappings testcase =
     (if testcase \<noteq> [] then
        (case re_search testcase of
           Some (before, m, after) \<Rightarrow> AList.update (re_sub testcase) m test_mappings
         | None \<Rightarrow> AList.update testcase [] test_mappings)
      else test_mappings)"

definition form_test_id_mappings :: "string list \<Rightarrow> test_dict" where
  "form_test_id_mappings test_list = foldl form_test_id_mapping [] test_list"


subsection \<open>Logging and exceptions\<close>

datatype log_level = DEBUG | INFO | WARNING | ERROR

type_synonym log = "(log_level \<times> string) list"

text \<open>
  An exception is its class and its message. The class stands for the class named in
  the handler that catches it: an exception of a subclass of \<open>ValueError\<close> is a
  \<open>ValueError\<close> here, and \<open>IOError\<close> is \<open>OSError\<close> with its subclasses.
\<close>

datatype exc_class =
    ValueError
  | AttributeError
  | KeyError
  | TypeError
  | IOError
  | UnsupportedAlgorithm
  | MissingSchema
  | ConnectionError
  | HTTPError
  | StopIteration
  | RuntimeError

datatype py_exception = Exc (cls: exc_class) (message: string)

fun digit_char :: "nat \<Rightarrow> char" where
  "digit_char n = char_of (of_char (CHR ''0'') + n)"

fun str_nat :: "nat \<Rightarrow> string" where
  \<comment> \<open>\<open>str(n)\<close> of a non-negative integer\<close>
  "str_nat n = (if n < 10 then [digit_char n] else str_nat (n div 10) @ [digit_char (n mod 10)])"

declare str_nat.simps [simp del]

subsection \<open>\<open>TestListParser._get_base_test_ids_from_list_file\<close>\<close>

fun split_newline :: "string \<Rightarrow> string list" where
  \<comment> \<open>\<open>text.split('\n')\<close>\<close>
  "split_newline [] = [[]]"
| "split_newline (c # cs) =
     (if c = newline then [] # split_newline cs
      else (case split_newline cs of [] \<Rightarrow> [[c]] | l # ls \<Rightarrow> (c # l) # ls))"

fun file_lines :: "string \<Rightarrow> string list" where
  \<comment> \<open>iterating over a text file: each line keeps its newline\<close>
  "file_lines [] = []"
| "file_lines (c # cs) =
     (if c = newline then [c] # file_lines cs
      else (case file_lines cs of [] \<Rightarrow> [[c]] | l # ls \<Rightarrow> (c # l) # ls))"

definition rstrip_newline :: "string \<Rightarrow> string" where
  \<comment> \<open>\<open>line.rstrip('\n')\<close>\<close>
  "rstrip_newline s = rev (dropWhile (\<lambda>c. c = newline) (rev s))"

text \<open>
  The two ways the list is read are the environment of the function:
  \<open>requests_get location verify\<close> is \<open>requests.get(location, verify=verify).text\<close> or
  the exception it raises, \<open>open_read location\<close> the text of the file or the exception
  raised while opening or reading it.
\<close>

record list_env =
  requests_get :: "string \<Rightarrow> bool \<Rightarrow> py_exception + string"
  open_read :: "string \<Rightarrow> py_exception + string"

definition read_error_entry :: "log_level \<times> string" where
  "read_error_entry = (ERROR, ''Error reading the passed in test list file.'')"

definition get_base_test_ids_from_list_file ::
  "list_env \<Rightarrow> bool \<Rightarrow> string \<Rightarrow> log \<times> (py_exception + string list)" where
  "get_base_test_ids_from_list_file env insecure list_location =
     (case requests_get env list_location (\<not> insecure) of
        Inr text \<Rightarrow>
          ([], Inr (map fst (form_test_id_mappings (split_newline text))))
      | Inl e \<Rightarrow>
          if cls e = MissingSchema then
            (case open_read env list_location of
               Inr content \<Rightarrow>
                 ([], Inr (map fst (form_test_id_mappings
                                      (map rstrip_newline (file_lines content)))))
             | Inl e' \<Rightarrow> ([read_error_entry], Inl e'))
          else ([read_error_entry], Inl e))"

subsection \<open>\<open>TestListParser._get_full_test_ids\<close>\<close>

definition full_test_id :: "string \<Rightarrow> string \<Rightarrow> string" where
  \<comment> \<open>what is appended for a test ID found with attributes \<open>attr\<close>;
      \<open>test_id.split('(', 1)\<close> cuts at the first parenthesis\<close>
  "full_test_id test_id attr =
     (if CHR ''('' \<in> set test_id \<and> attr \<noteq> [] then
        (let test_portion = takeWhile (\<lambda>c. c \<noteq> CHR ''('') test_id;
             scenario = ''('' @ tl (dropWhile (\<lambda>c. c \<noteq> CHR ''('') test_id)
         in test_portion @ attr @ scenario)
      else test_id @ attr)"

definition get_full_test_id :: "test_dict \<Rightarrow> string list \<times> log \<Rightarrow> string \<Rightarrow> string list \<times> log" where
  \<comment> \<open>the body of the loop over \<open>base_ids\<close>; a missing key is caught and logged\<close>
  "get_full_test_id tempest_ids st test_id =
     (case map_of tempest_ids test_id of
        Some attr \<Rightarrow> (fst st @ [full_test_id test_id attr], snd st)
      | None \<Rightarrow>
          (fst st, snd st @ [(DEBUG, ''Test '' @ test_id @ '' not found in Tempest list.'')]))"

definition get_full_test_ids :: "test_dict \<Rightarrow> string list \<Rightarrow> string list \<times> log" where
  "get_full_test_ids tempest_ids base_ids =
     (let st = foldl (get_full_test_id tempest_ids) ([], []) base_ids
      in (fst st, snd st @ [(DEBUG, ''Number of tests: '' @ str_nat (length (fst st)))]))"

subsection \<open>The mapping as the specification words it\<close>

definition spec_bracket_group :: "string \<Rightarrow> (string \<times> string \<times> string) option" where
  \<comment> \<open>the span from the first \<open>[\<close> of the line to its last \<open>]\<close>, with the text on
      either side, if the line has a \<open>]\<close> after its first \<open>[\<close>\<close>
  "spec_bracket_group l =
     (let pre = takeWhile (\<lambda>c. c \<noteq> CHR ''['') l;
          rest = dropWhile (\<lambda>c. c \<noteq> CHR ''['') l
      in if CHR '']'' \<in> set rest
         then Some (pre, rev (dropWhile (\<lambda>c. c \<noteq> CHR '']'') (rev rest)),
                    rev (takeWhile (\<lambda>c. c \<noteq> CHR '']'') (rev rest)))
         else None)"

definition spec_entry :: "string \<Rightarrow> string \<times> string" where
  "spec_entry l =
     (case spec_bracket_group l of
        Some (pre, span, post) \<Rightarrow> (pre @ post, span)
      | None \<Rightarrow> (l, []))"

definition spec_mappings :: "string list \<Rightarrow> (string \<rightharpoonup> string)" where
  \<comment> \<open>empty lines skipped, the last line of a key wins\<close>
  "spec_mappings ls = map_of (rev (map spec_entry (filter (\<lambda>l. l \<noteq> []) ls)))"

subsection \<open>Bytes, UTF-8, hexadecimal\<close>

type_synonym byte = "8 word"

definition encode_utf8 :: "string \<Rightarrow> byte list" where
  \<comment> \<open>\<open>s.encode('utf-8')\<close>: a code point below 128 is one byte, one from 128 to 255 two\<close>
  "encode_utf8 s =
     concat (map (\<lambda>c. let n = (of_char c :: nat)
                      in if n < 128 then [of_nat n]
                         else [of_nat (192 + n div 64), of_nat (128 + n mod 64)]) s)"

definition hex_digit :: "nat \<Rightarrow> char" where
  "hex_digit n = ''0123456789abcdef'' ! (n mod 16)"

definition b2a_hex :: "byte list \<Rightarrow> string" where
  \<comment> \<open>\<open>binascii.b2a_hex\<close>, and the rendering of \<open>hexdigest()\<close>\<close>
  "b2a_hex bs = concat (map (\<lambda>b. [hex_digit (unat b div 16), hex_digit (unat b mod 16)]) bs)"

subsection \<open>MD5 (RFC 1321), as \<open>hashlib.md5\<close> computes it\<close>

definition md5_s :: "nat list" where
  "md5_s = [7, 12, 17, 22, 7, 12, 17, 22, 7, 12, 17, 22, 7, 12, 17, 22,
            5, 9, 14, 20, 5, 9, 14, 20, 5, 9, 14, 20, 5, 9, 14, 20,
            4, 11, 16, 23, 4, 11, 16, 23, 4, 11, 16, 23, 4, 11, 16, 23,
            6, 10, 15, 21, 6, 10, 15, 21, 6, 10, 15, 21, 6, 10, 15, 21]"

definition md5_K :: "32 word list" where
  "md5_K = [0xd76aa478, 0xe8c7b756, 0x242070db, 0xc1bdceee,
            0xf57c0faf, 0x4787c62a, 0xa8304613, 0xfd469501,
            0x698098d8, 0x8b44f7af, 0xffff5bb1, 0x895cd7be,
            0x6b901122, 0xfd987193, 0xa679438e, 0x49b40821,
            0xf61e2562, 0xc040b340, 0x265e5a51, 0xe9b6c7aa,
            0xd62f105d, 0x02441453, 0xd8a1e681, 0xe7d3fbc8,
            0x21e1cde6, 0xc33707d6, 0xf4d50d87, 0x455a14ed,
            0xa9e3e905, 0xfcefa3f8, 0x676f02d9, 0x8d2a4c8a,
            0xfffa3942, 0x8771f681, 0x6d9d6122, 0xfde5380c,
            0xa4beea44, 0x4bdecfa9, 0xf6bb4b60, 0xbebfbc70,
            0x289b7ec6, 0xeaa127fa, 0xd4ef3085, 0x04881d05,
            0xd9d4d039, 0xe6db99e5, 0x1fa27cf8, 0xc4ac5665,
            0xf4292244, 0x432aff97, 0xab9423a7, 0xfc93a039,
            0x655b59c3, 0x8f0ccc92, 0xffeff47d, 0x85845dd1,
            0x6fa87e4f, 0xfe2ce6e0, 0xa3014314, 0x4e0811a1,
            0xf7537e82, 0xbd3af235, 0x2ad7d2bb, 0xeb86d391]"

definition md5_pad :: "byte list \<Rightarrow> byte list" where
  \<comment> \<open>a one bit, zeros up to 56 modulo 64, the length in bits as 64 bits, low byte first\<close>
  "md5_pad m =
     m @ [0x80] @ replicate ((119 - length m mod 64) mod 64) 0 @
     map (\<lambda>i. ucast (drop_bit (8 * i) (of_nat (8 * length m) :: 64 word))) [0..<8]"

definition le32 :: "byte list \<Rightarrow> 32 word" where
  "le32 bs = foldr (\<lambda>b w. ucast b OR push_bit 8 w) bs 0"

definition le_bytes :: "32 word \<Rightarrow> byte list" where
  "le_bytes w = map (\<lambda>i. ucast (drop_bit (8 * i) w)) [0..<4]"

fun chunks :: "nat \<Rightarrow> nat \<Rightarrow> 'a list \<Rightarrow> 'a list list" where
  \<comment> \<open>the first \<open>k\<close> pieces of length \<open>n\<close>\<close>
  "chunks n 0 xs = []"
| "chunks n (Suc k) xs = take n xs # chunks n k (drop n xs)"

type_synonym md5_state = "32 word \<times> 32 word \<times> 32 word \<times> 32 word"

definition md5_step :: "32 word list \<Rightarrow> md5_state \<Rightarrow> nat \<Rightarrow> md5_state" where
  "md5_step M st i =
     (case st of (A, B, C, D) \<Rightarrow>
        let (F, g) =
              (if i < 16 then ((B AND C) OR (NOT B AND D), i)
               else if i < 32 then ((D AND B) OR (NOT D AND C), (5 * i + 1) mod 16)
               else if i < 48 then (B XOR C XOR D, (3 * i + 5) mod 16)
               else (C XOR (B OR NOT D), (7 * i) mod 16));
            F' = F + A + md5_K ! i + M ! g
        in (D, B + word_rotl (md5_s ! i) F', B, C))"

definition md5_block :: "md5_state \<Rightarrow> byte list \<Rightarrow> md5_state" where
  "md5_block st block =
     (case st of (a0, b0, c0, d0) \<Rightarrow>
        case foldl (md5_step (map le32 (chunks 4 16 block))) st [0..<64] of
          (A, B, C, D) \<Rightarrow> (a0 + A, b0 + B, c0 + C, d0 + D))"

definition md5_digest :: "byte list \<Rightarrow> byte list" where
  "md5_digest m =
     (let p = md5_pad m in
      case foldl md5_block (0x67452301, 0xefcdab89, 0x98badcfe, 0x10325476)
                 (chunks 64 (length p div 64) p) of
        (a, b, c, d) \<Rightarrow> le_bytes a @ le_bytes b @ le_bytes c @ le_bytes d)"

definition md5_hexdigest :: "byte list \<Rightarrow> string" where
  \<comment> \<open>\<open>hashlib.md5(m).hexdigest()\<close>\<close>
  "md5_hexdigest m = b2a_hex (md5_digest m)"

subsection \<open>\<open>RefstackClient._generate_cpid_from_endpoint\<close>\<close>

text \<open>
  \<open>parse.urlparse\<close> is a function of the standard library, and the function reads two
  attributes of its result, \<open>scheme\<close> and \<open>hostname\<close>. It is a parameter of the model:
  a function from the endpoint to the exception \<open>urlparse\<close> raises or to these two
  attributes, \<open>hostname\<close> being \<open>None\<close> when the URL has no host name. Whatever the
  library does to split the URL, to validate it and to put the host name in lower case
  is inside this parameter.
\<close>

record url_parts =
  scheme :: string
  hostname :: "string option"

definition squote :: "string \<Rightarrow> string" where
  \<comment> \<open>the text between two apostrophes\<close>
  "squote s = [CHR 0x27] @ s @ [CHR 0x27]"

definition generate_cpid_from_endpoint ::
  "(string \<Rightarrow> py_exception + url_parts) \<Rightarrow> string \<Rightarrow> log \<times> (py_exception + string)" where
  "generate_cpid_from_endpoint urlparse endpoint =
     (let lg = [(INFO, ''Creating hash from endpoint to use as CPID.'')]
      in case urlparse endpoint of
           Inl e \<Rightarrow> (lg, Inl e)
         | Inr url_parts \<Rightarrow>
             if scheme url_parts \<notin> set [''http'', ''https''] then
               (lg, Inl (Exc ValueError
                  (''Invalid Keystone endpoint format. Make sure the endpoint ('' @ endpoint @
                   '') includes the URL scheme (i.e. http/https).'')))
             else
               (case hostname url_parts of
                  None \<Rightarrow> (lg, Inl (Exc AttributeError
                                      (squote ''NoneType'' @ '' object has no attribute '' @
                                       squote ''encode'')))
                | Some h \<Rightarrow> (lg, Inr (md5_hexdigest (encode_utf8 h)))))"

subsection \<open>\<open>RefstackClient.post_results\<close>\<close>

text \<open>
  What \<open>post_results\<close> does to the world is its log, the requests it sends, what it
  prints and the exception it lets through. The world it reads is a record of functions:
  the JSON text of the content, the key file (\<open>open\<close> fails, or gives a file whose
  \<open>read\<close> fails or gives the text), \<open>serialization.load_pem_private_key\<close>, the
  signature of the \<open>signer\<close> made with \<open>padding.PKCS1v15()\<close> and \<open>hashes.SHA256()\<close>
  over the bytes given to \<open>update\<close>, the OpenSSH form of the public key, and
  \<open>requests.post\<close>.
\<close>

record key_file =
  file_repr :: string
  file_read :: "py_exception + string"

record post_request =
  post_url :: string
  post_data :: string
  post_headers :: "(string \<times> string) list"
  post_verify :: bool

record post_response =
  status_code :: nat
  response_text :: string
  response_json_url :: "py_exception + string"

record ('key, 'content) post_env =
  json_dumps :: "'content \<Rightarrow> string"
  content_str :: "'content \<Rightarrow> string"
  open_file :: "string \<Rightarrow> py_exception + key_file"
  load_pem_private_key :: "byte list \<Rightarrow> py_exception + 'key"
  sign_pkcs1v15_sha256 :: "'key \<Rightarrow> byte list \<Rightarrow> py_exception + byte list"
  public_bytes_openssh :: "'key \<Rightarrow> py_exception + string"
  requests_post :: "post_request \<Rightarrow> py_exception + post_response"
  args_insecure :: bool

record outcome =
  logged :: log
  posted :: "post_request list"  \<comment> \<open>the calls of \<open>requests.post\<close>\<close>
  printed :: "string list"
  raised :: "py_exception option"

datatype 'a step = Proceed 'a | Return log | Raise py_exception

definition sign_headers ::
  "('key, 'content) post_env \<Rightarrow> string \<Rightarrow> string option \<Rightarrow> (string \<times> string) list
     \<Rightarrow> (string \<times> string) list step" where
  \<comment> \<open>the block under \<open>if sign_with:\<close>; \<open>None\<close> and the empty string are false\<close>
  "sign_headers env data sign_with headers =
     (case sign_with of
        None \<Rightarrow> Proceed headers
      | Some path \<Rightarrow>
          if path = [] then Proceed headers
          else
            (case open_file env path of
               Inl e \<Rightarrow> Raise e
             | Inr private_key_file \<Rightarrow>
                 (case (case file_read private_key_file of
                          Inl e \<Rightarrow> Inl e
                        | Inr pem \<Rightarrow> load_pem_private_key env (encode_utf8 pem)) of
                    Inl e \<Rightarrow>
                      if cls e \<in> set [IOError, UnsupportedAlgorithm, ValueError] then
                        Return [(INFO, ''Error during upload key pair '' @
                                       file_repr private_key_file),
                                (ERROR, message e)]
                      else Raise e
                  | Inr private_key \<Rightarrow>
                      (case sign_pkcs1v15_sha256 env private_key (encode_utf8 data) of
                         Inl e \<Rightarrow> Raise e
                       | Inr sig \<Rightarrow>
                           (case public_bytes_openssh env private_key of
                              Inl e \<Rightarrow> Raise e
                            | Inr pubkey \<Rightarrow>
                                Proceed (AList.update ''X-Public-Key'' pubkey
                                          (AList.update ''X-Signature'' (b2a_hex sig)
                                             headers)))))))"

definition post_results ::
  "('key, 'content) post_env \<Rightarrow> string \<Rightarrow> 'content \<Rightarrow> string option \<Rightarrow> outcome" where
  "post_results env url content sign_with =
     (let endpoint = url @ ''/v1/results/'';
          headers = [(''Content-type'', ''application/json'')];
          data = json_dumps env content;
          lg = [(DEBUG, ''API request content: '' @ content_str env content @ '' '')]
      in case sign_headers env data sign_with headers of
           Raise e \<Rightarrow> \<lparr>logged = lg, posted = [], printed = [], raised = Some e\<rparr>
         | Return entries \<Rightarrow>
             \<lparr>logged = lg @ entries, posted = [], printed = [], raised = None\<rparr>
         | Proceed headers \<Rightarrow>
             (let request = \<lparr>post_url = endpoint, post_data = data, post_headers = headers,
                             post_verify = (\<not> args_insecure env)\<rparr>
              in case requests_post env request of
                   Inl e \<Rightarrow>
                     \<lparr>logged = lg @ [(INFO, ''Failed to post '' @ endpoint @ '' - '' @
                                             message e @ '' ''),
                                      (ERROR, message e)],
                      posted = [request], printed = [], raised = None\<rparr>
                 | Inr response \<Rightarrow>
                     (let lg = lg @ [(INFO, endpoint @ '' Response: '' @ response_text response)]
                      in if status_code response = 201 then
                           (case response_json_url response of
                              Inl e \<Rightarrow> \<lparr>logged = lg, posted = [request], printed = [],
                                         raised = Some e\<rparr>
                            | Inr u \<Rightarrow>
                                \<lparr>logged = lg, posted = [request],
                                 printed = [''Test results uploaded!'' @ [newline] @ ''URL: '' @ u],
                                 raised = None\<rparr>)
                         else \<lparr>logged = lg, posted = [request], printed = [], raised = None\<rparr>)))"

subsection \<open>\<open>RefstackClient.yield_results\<close>\<close>

datatype param_value = IntParam int | StrParam string

record get_request =
  get_url :: string
  get_headers :: "(string \<times> string) list"
  get_params :: "(string \<times> param_value) list"
  get_verify :: bool

record 'r page_body =
  results :: "'r list option"
  total_pages :: "int option"

record 'r get_response =
  status_error :: "string option"
  json_body :: "py_exception + 'r page_body"

record 'r results_env =
  requests_get_page :: "get_request \<Rightarrow> py_exception + 'r get_response"
  list_insecure :: bool

record filters =
  start_date :: string
  end_date :: string
  cpid :: string

text \<open>
  The generator is a state machine driven by \<open>next\<close>: it waits at the head of the
  loop with the page to request, or at the \<open>yield\<close> with the page it yielded and the
  \<open>total_pages\<close> entry of the response (absent if the lookup raises \<open>KeyError\<close>), or
  it is finished. The environment answers a request with the exception \<open>requests.get\<close>
  raises, or with a response, for which \<open>raise_for_status\<close> raises \<open>HTTPError\<close> with a
  message or not, and \<open>json()\<close> raises or gives the body.

  The body of the generator ends the iteration with \<open>raise StopIteration\<close>. What the
  caller of \<open>next\<close> sees then depends on the interpreter: under PEP 479 (in force from
  Python 3.7; before that only with \<open>from __future__ import generator_stop\<close>, which
  the module does not have) the exception becomes \<open>RuntimeError\<close>; without it the
  iteration ends. The flag \<open>generator_stop\<close> says which of the two holds.
\<close>

datatype gen_state = AtPage int | AfterYield int "int option" | Finished

datatype 'r event = Yielded "'r list" | Stopped | Failed py_exception

definition raise_StopIteration :: "bool \<Rightarrow> 'r event" where
  "raise_StopIteration generator_stop =
     (if generator_stop then Failed (Exc RuntimeError ''generator raised StopIteration'')
      else Stopped)"

definition page_params :: "filters \<Rightarrow> int \<Rightarrow> (string \<times> param_value) list" where
  "page_params f page =
     foldl (\<lambda>params (name, v). if v \<noteq> [] then AList.update name (StrParam v) params else params)
       [(''page'', IntParam page)]
       [(''start_date'', start_date f), (''end_date'', end_date f), (''cpid'', cpid f)]"

definition page_request :: "'r results_env \<Rightarrow> string \<Rightarrow> filters \<Rightarrow> int \<Rightarrow> get_request" where
  \<comment> \<open>the arguments of \<open>requests.get\<close> for a page\<close>
  "page_request env url f page =
     \<lparr>get_url = url @ ''/v1/results/'',
      get_headers = [(''Content-type'', ''application/json'')],
      get_params = page_params f page,
      get_verify = (\<not> list_insecure env)\<rparr>"

definition request_page ::
  "'r results_env \<Rightarrow> bool \<Rightarrow> string \<Rightarrow> filters \<Rightarrow> int \<Rightarrow> 'r event \<times> gen_state \<times> log" where
  \<comment> \<open>one turn of the loop, from its head to the \<open>yield\<close> or to the end of the generator\<close>
  "request_page env generator_stop url f page =
     (let endpoint = url @ ''/v1/results/'';
          failed = (\<lambda>m. (raise_StopIteration generator_stop, Finished,
                          [(INFO, ''Failed to list '' @ endpoint @ '' - '' @ m @ '' '')]))
      in case requests_get_page env (page_request env url f page) of
           Inl e \<Rightarrow> if cls e = HTTPError then failed (message e) else (Failed e, Finished, [])
         | Inr resp \<Rightarrow>
             (case status_error resp of
                Some m \<Rightarrow> failed m
              | None \<Rightarrow>
                  (case json_body resp of
                     Inl e \<Rightarrow> (Failed e, Finished, [])
                   | Inr body \<Rightarrow>
                       (Yielded (case results body of None \<Rightarrow> [] | Some r \<Rightarrow> r),
                        AfterYield page (total_pages body), []))))"

definition gen_next ::
  "'r results_env \<Rightarrow> bool \<Rightarrow> string \<Rightarrow> filters \<Rightarrow> gen_state \<Rightarrow> 'r event \<times> gen_state \<times> log" where
  "gen_next env generator_stop url f st =
     (case st of
        AtPage page \<Rightarrow> request_page env generator_stop url f page
      | AfterYield page reported \<Rightarrow>
          (case reported of
             None \<Rightarrow> (Failed (Exc KeyError ''total_pages''), Finished, [])
           | Some t \<Rightarrow>
               if t = page then (raise_StopIteration generator_stop, Finished, [])
               else request_page env generator_stop url f (page + 1))
      | Finished \<Rightarrow> (Stopped, Finished, []))"

definition yield_results :: "int \<Rightarrow> gen_state" where
  \<comment> \<open>calling the generator function runs nothing: the generator waits at its start\<close>
  "yield_results start_page = AtPage start_page"

text \<open>
  A \<open>for\<close> loop over the generator, as in \<open>list()\<close>, for at most \<open>fuel\<close> calls of
  \<open>next\<close>: the batches it received, what was logged, and how it ended (\<open>Pending\<close>: the
  generator had not ended when the fuel ran out).
\<close>

datatype ending = Exhausted | Raised py_exception | Pending

fun for_loop ::
  "nat \<Rightarrow> 'r results_env \<Rightarrow> bool \<Rightarrow> string \<Rightarrow> filters \<Rightarrow> gen_state \<Rightarrow> 'r list list \<times> log \<times> ending" where
  "for_loop 0 env generator_stop url f st = ([], [], Pending)"
| "for_loop (Suc fuel) env generator_stop url f st =
     (case gen_next env generator_stop url f st of
        (Yielded batch, st', lg) \<Rightarrow>
          (case for_loop fuel env generator_stop url f st' of
             (batches, lg', e) \<Rightarrow> (batch # batches, lg @ lg', e))
      | (Stopped, st', lg) \<Rightarrow> ([], lg, Exhausted)
      | (Failed e, st', lg) \<Rightarrow> ([], lg, Raised e))"

text \<open>How a loop over the generator ends when the body raises \<open>StopIteration\<close>.\<close>

definition end_of_iteration :: "bool \<Rightarrow> ending" where
  "end_of_iteration generator_stop =
     (if generator_stop then Raised (Exc RuntimeError ''generator raised StopIteration'')
      else Exhausted)"

subsection \<open>Environments of the examples\<close>

definition bad_key_env :: "(unit, string) post_env" where
  \<comment> \<open>the key file opens and reads, its text is not a key; the server would answer 201\<close>
  "bad_key_env =
     \<lparr>json_dumps = (\<lambda>c. c),
      content_str = (\<lambda>c. c),
      open_file = (\<lambda>path. Inr \<lparr>file_repr = path, file_read = Inr ''not a key''\<rparr>),
      load_pem_private_key = (\<lambda>pem. Inl (Exc ValueError ''Could not deserialize key data.'')),
      sign_pkcs1v15_sha256 = (\<lambda>k bs. Inr []),
      public_bytes_openssh = (\<lambda>k. Inr ''ssh-rsa''),
      requests_post = (\<lambda>r. Inr \<lparr>status_code = 201, response_text = ''{}'',
                                   response_json_url = Inr []\<rparr>),
      args_insecure = False\<rparr>"

definition paged_env :: "int \<Rightarrow> string results_env" where
  \<comment> \<open>every request succeeds; the batch of a page is \<open>p\<close> entries, the total is \<open>n\<close>\<close>
  "paged_env n =
     \<lparr>requests_get_page =
        (\<lambda>r. Inr \<lparr>status_error = None,
                  json_body = Inr \<lparr>results =
                                      (case map_of (get_params r) ''page'' of
                                         Some (IntParam p) \<Rightarrow> Some (replicate (nat p) ''result'')
                                       | _ \<Rightarrow> None),
                                    total_pages = Some n\<rparr>\<rparr>),
      list_insecure = False\<rparr>"

definition failing_env :: "string results_env" where
  \<comment> \<open>every request is answered with status 500\<close>
  "failing_env =
     \<lparr>requests_get_page =
        (\<lambda>r. Inr \<lparr>status_error = Some ''500 Server Error'',
                  json_body = Inl (Exc ValueError ''Expecting value'')\<rparr>),
      list_insecure = False\<rparr>"

definition example_urlparse :: "string \<Rightarrow> py_exception + url_parts" where
  \<comment> \<open>what \<open>urlparse\<close> gives for the endpoints of the examples; the last line is its
      answer for the empty endpoint, and stands in for every endpoint not listed\<close>
  "example_urlparse endpoint =
     (if endpoint = ''https://cloud.example.com:5000/v3''
        then Inr \<lparr>scheme = ''https'', hostname = Some ''cloud.example.com''\<rparr>
      else if endpoint = ''https://Cloud.Example.COM:5000/v3''
        then Inr \<lparr>scheme = ''https'', hostname = Some ''cloud.example.com''\<rparr>
      else if endpoint = ''ftp://bad.example.com''
        then Inr \<lparr>scheme = ''ftp'', hostname = Some ''bad.example.com''\<rparr>
      else if endpoint = ''http:///v3''
        then Inr \<lparr>scheme = ''http'', hostname = None\<rparr>
      else if endpoint = ''http://[::1''
        then Inl (Exc ValueError ''Invalid IPv6 URL'')
      else Inr \<lparr>scheme = [], hostname = None\<rparr>)"

definition no_filters :: filters where
  "no_filters = \<lparr>start_date = [], end_date = [], cpid = []\<rparr>"

section \<open>Properties of the test list parser\<close>

subsection \<open>The regular expressions on a line\<close>

lemma no_close_no_match: "CHR '']'' \<notin> set s \<Longrightarrow> re_search s = None"
proof (induction s)
  case Nil then show ?case by simp
next
  case (Cons c cs)
  have "set (dot_run cs) \<subseteq> set cs" unfolding dot_run_def by (auto dest: set_takeWhileD)
  with Cons show ?case by (auto simp: match_bracket_def)
qed

lemma re_sub_no_match: "re_search s = None \<Longrightarrow> re_sub s = s"
  by (subst re_sub.simps) simp

lemma dot_run_id: "newline \<notin> set s \<Longrightarrow> dot_run s = s"
  unfolding dot_run_def by auto

lemma upto_last_close_split:
  "upto_last_close s @ rev (takeWhile (\<lambda>c. c \<noteq> CHR '']'') (rev s)) = s"
  unfolding upto_last_close_def
  by (metis rev_append rev_rev_ident takeWhile_dropWhile_id)

lemma drop_upto_last_close:
  "drop (length (upto_last_close s)) s = rev (takeWhile (\<lambda>c. c \<noteq> CHR '']'') (rev s))"
  by (metis append_eq_conv_conj upto_last_close_split)

lemma upto_last_close_Cons:
  "CHR '']'' \<in> set s \<Longrightarrow> upto_last_close (c # s) = c # upto_last_close s"
  unfolding upto_last_close_def by (simp add: dropWhile_append)

lemma after_last_close_Cons:
  "CHR '']'' \<in> set s \<Longrightarrow>
   rev (takeWhile (\<lambda>c. c \<noteq> CHR '']'') (rev (c # s))) = rev (takeWhile (\<lambda>c. c \<noteq> CHR '']'') (rev s))"
  by (auto simp add: takeWhile_append)

lemma re_search_spec:
  "newline \<notin> set l \<Longrightarrow> re_search l = spec_bracket_group l"
proof (induction l)
  case Nil then show ?case by (simp add: spec_bracket_group_def)
next
  case (Cons c cs)
  then have nl: "newline \<notin> set cs" by simp
  show ?case
  proof (cases "c = CHR ''[''")
    case True
    show ?thesis
    proof (cases "CHR '']'' \<in> set cs")
      case True
      with \<open>c = CHR ''[''\<close> nl show ?thesis
        using upto_last_close_Cons [of cs c] after_last_close_Cons [of cs c]
        by (simp add: match_bracket_def dot_run_id spec_bracket_group_def
            drop_upto_last_close) (simp add: upto_last_close_def)
    next
      case False
      with \<open>c = CHR ''[''\<close> nl show ?thesis
        by (simp add: match_bracket_def dot_run_id spec_bracket_group_def no_close_no_match)
    qed
  next
    case False
    with Cons.IH nl show ?thesis
      by (simp add: spec_bracket_group_def Let_def)
  qed
qed


lemma entry_spec:
  assumes "newline \<notin> set l"
  shows "(case re_search l of Some (before, m, after) \<Rightarrow> (re_sub l, m) | None \<Rightarrow> (l, [])) = spec_entry l"
proof (cases "spec_bracket_group l")
  case None
  with assms show ?thesis by (simp add: re_search_spec spec_entry_def)
next
  case (Some t)
  obtain pre span post where t: "t = (pre, span, post)" by (cases t) auto
  from Some t have "CHR '']'' \<notin> set post"
    by (auto simp: spec_bracket_group_def Let_def split: if_splits dest: set_takeWhileD)
  then have "re_sub post = post" by (simp add: no_close_no_match re_sub_no_match)
  moreover from assms Some t have "re_search l = Some (pre, span, post)"
    by (simp add: re_search_spec)
  ultimately have "re_sub l = pre @ post" by (subst re_sub.simps) simp
  with assms Some t show ?thesis by (simp add: re_search_spec spec_entry_def)
qed

lemma form_step_entry:
  "newline \<notin> set l \<Longrightarrow>
   form_test_id_mapping d l = (if l \<noteq> [] then AList.update (fst (spec_entry l)) (snd (spec_entry l)) d else d)"
  using entry_spec [of l, symmetric] unfolding form_test_id_mapping_def
  by (auto split: option.splits)

lemma map_of_foldl_form:
  "\<forall>l\<in>set ls. newline \<notin> set l \<Longrightarrow>
   map_of (foldl form_test_id_mapping d ls) =
   map_of (rev (map spec_entry (filter (\<lambda>l. l \<noteq> []) ls)) @ d)"
proof (induction ls arbitrary: d)
  case Nil then show ?case by simp
next
  case (Cons l ls)
  then show ?case
    by (cases "spec_entry l") (simp add: form_step_entry update_conv' map_add_def [symmetric] fun_eq_iff)
qed

lemma form_spec:
  "\<forall>l\<in>set ls. newline \<notin> set l \<Longrightarrow> map_of (form_test_id_mappings ls) = spec_mappings ls"
  unfolding form_test_id_mappings_def spec_mappings_def
  using map_of_foldl_form [of ls "[]"] by simp

lemma distinct_foldl_form:
  "distinct (map fst d) \<Longrightarrow> distinct (map fst (foldl form_test_id_mapping d ls))"
  by (induction ls arbitrary: d) (auto simp: form_test_id_mapping_def distinct_update split: option.splits)

subsection \<open>Lines never hold a newline\<close>

lemma split_newline_nonempty: "split_newline s \<noteq> []"
  by (induction s) (auto split: list.splits)

lemma split_newline_clean: "l \<in> set (split_newline s) \<Longrightarrow> newline \<notin> set l"
proof (induction s arbitrary: l)
  case Nil then show ?case by simp
next
  case (Cons c cs)
  then show ?case by (auto split: if_splits list.splits)
qed

lemma file_lines_shape:
  "l \<in> set (file_lines s) \<Longrightarrow> \<exists>b. newline \<notin> set b \<and> (l = b \<or> l = b @ [newline])"
proof (induction s arbitrary: l)
  case Nil then show ?case by simp
next
  case (Cons c cs)
  show ?case
  proof (cases "c = newline")
    case True
    with Cons show ?thesis by (auto intro: exI [of _ "[]"])
  next
    case False
    show ?thesis
    proof (cases "file_lines cs")
      case Nil
      with False Cons.prems show ?thesis by (auto intro: exI [of _ "[c]"])
    next
      case (Cons l' ls)
      with False Cons.prems have "l = c # l' \<or> l \<in> set ls" by auto
      then show ?thesis
      proof
        assume "l \<in> set ls"
        with Cons Cons.IH show ?thesis by simp
      next
        assume l: "l = c # l'"
        from Cons Cons.IH [of l'] obtain b where "newline \<notin> set b" "l' = b \<or> l' = b @ [newline]"
          by auto
        with False l show ?thesis by (intro exI [of _ "c # b"]) auto
      qed
    qed
  qed
qed

lemma rstrip_newline_clean_id: "newline \<notin> set b \<Longrightarrow> rstrip_newline b = b"
proof -
  assume "newline \<notin> set b"
  then have "dropWhile (\<lambda>c. c = newline) (rev b) = rev b"
    by (cases "rev b") auto
  then show ?thesis by (simp add: rstrip_newline_def)
qed

lemma rstrip_file_lines_clean:
  "l \<in> set (map rstrip_newline (file_lines s)) \<Longrightarrow> newline \<notin> set l"
proof -
  assume "l \<in> set (map rstrip_newline (file_lines s))"
  then obtain l0 where l0: "l0 \<in> set (file_lines s)" "l = rstrip_newline l0" by auto
  from file_lines_shape [OF l0(1)] obtain b where b: "newline \<notin> set b" "l0 = b \<or> l0 = b @ [newline]"
    by auto
  have "rstrip_newline (b @ [newline]) = rstrip_newline b" by (simp add: rstrip_newline_def)
  with b l0 have "l = b" by (auto simp: rstrip_newline_clean_id)
  with b show ?thesis by simp
qed

lemma keys_foldl_form:
  "\<forall>l\<in>set ls. newline \<notin> set l \<Longrightarrow>
   fst ` set (foldl form_test_id_mapping d ls) =
   fst ` set d \<union> (\<lambda>l. fst (spec_entry l)) ` {l \<in> set ls. l \<noteq> []}"
proof (induction ls arbitrary: d)
  case Nil then show ?case by simp
next
  case (Cons l ls)
  then show ?case by (auto simp: form_step_entry dom_update)
qed

lemma keys_form:
  "\<forall>l\<in>set ls. newline \<notin> set l \<Longrightarrow>
   set (map fst (form_test_id_mappings ls)) = (\<lambda>l. fst (spec_entry l)) ` {l \<in> set ls. l \<noteq> []}"
  using keys_foldl_form [of ls "[]"] by (simp add: form_test_id_mappings_def)

lemma distinct_form: "distinct (map fst (form_test_id_mappings ls))"
  unfolding form_test_id_mappings_def by (rule distinct_foldl_form) simp

lemma spec_entry_group:
  assumes "CHR ''['' \<notin> set pre" "CHR '']'' \<notin> set post"
  shows "spec_entry (pre @ ''['' @ mid @ '']'' @ post) = (pre @ post, ''['' @ mid @ '']'')"
proof -
  have tw: "takeWhile (\<lambda>c. c \<noteq> CHR ''['') (pre @ ''['' @ mid @ '']'' @ post) = pre"
    using assms(1) by (subst takeWhile_append2) auto
  have dw: "dropWhile (\<lambda>c. c \<noteq> CHR ''['') (pre @ ''['' @ mid @ '']'' @ post) = ''['' @ mid @ '']'' @ post"
    using assms(1) by (subst dropWhile_append2) auto
  have r: "rev (''['' @ mid @ '']'' @ post) = rev post @ '']'' @ rev mid @ ''[''" by simp
  have a: "takeWhile (\<lambda>c. c \<noteq> CHR '']'') (rev post @ '']'' @ rev mid @ ''['') = rev post"
    using assms(2) by (subst takeWhile_append2) auto
  have b: "dropWhile (\<lambda>c. c \<noteq> CHR '']'') (rev post @ '']'' @ rev mid @ ''['') = '']'' @ rev mid @ ''[''"
    using assms(2) by (subst dropWhile_append2) auto
  show ?thesis
    unfolding spec_entry_def spec_bracket_group_def Let_def tw dw r a b by simp
qed

lemma spec_entry_no_group:
  "CHR '']'' \<notin> set (dropWhile (\<lambda>c. c \<noteq> CHR ''['') l) \<Longrightarrow> spec_entry l = (l, [])"
  by (simp add: spec_entry_def spec_bracket_group_def)

lemma form_example:
  "form_test_id_mappings
            [''pkg.t1[gate,id-2]'', [], ''pkg.t2[id-3,smoke](variant)'', ''pkg.t3'',
             ''pkg.t4[a]x[b]'', ''pkg.t1[smoke]''] =
   [(''pkg.t1'', ''[smoke]''), (''pkg.t2(variant)'', ''[id-3,smoke]''), (''pkg.t3'', []),
    (''pkg.t4'', ''[a]x[b]'')]"
  by code_simp

text \<open>
  Claim C3. On a sequence of lines (strings without a newline, as \<open>split('\n')\<close> and
  the iteration over a file produce them), \<open>_form_test_id_mappings\<close> skips the empty
  lines; a line with a \<open>]\<close> after its first \<open>[\<close> is stored under the line without the
  span from the first \<open>[\<close> to the last \<open>]\<close>, with that span, brackets included, as its
  value; any other nonempty line is stored whole with the empty string as its value; a
  later line replaces the value an earlier line stored under the same key; the keys of
  the result are pairwise different. The function has no failing branch.
\<close>

theorem form_test_id_mappings_spec:
  assumes "\<forall>l\<in>set test_list. newline \<notin> set l"
  shows "map_of (form_test_id_mappings test_list) = spec_mappings test_list \<and>
         distinct (map fst (form_test_id_mappings test_list))"
  using assms form_spec distinct_form by blast

theorem form_test_id_mappings_spec_witness:
  "map_of (form_test_id_mappings
            [''pkg.t1[gate,id-2]'', [], ''pkg.t2[id-3,smoke](variant)'', ''pkg.t3'',
             ''pkg.t4[a]x[b]'', ''pkg.t1[smoke]'']) =
   spec_mappings [''pkg.t1[gate,id-2]'', [], ''pkg.t2[id-3,smoke](variant)'', ''pkg.t3'',
                  ''pkg.t4[a]x[b]'', ''pkg.t1[smoke]''] \<and>
   distinct (map fst (form_test_id_mappings
            [''pkg.t1[gate,id-2]'', [], ''pkg.t2[id-3,smoke](variant)'', ''pkg.t3'',
             ''pkg.t4[a]x[b]'', ''pkg.t1[smoke]'']))"
  using form_test_id_mappings_spec
    [of "[''pkg.t1[gate,id-2]'', [], ''pkg.t2[id-3,smoke](variant)'', ''pkg.t3'',
          ''pkg.t4[a]x[b]'', ''pkg.t1[smoke]'']"]
  by (simp add: newline_def)

text \<open>
  Claim C10. The list of base test IDs that \<open>_get_base_test_ids_from_list_file\<close>
  returns holds every base ID once: it is the list of keys of the dictionary built from
  the lines of the user's list, so equal lines, and lines that differ in their bracket
  group only, give one entry. Its elements are the base IDs of the nonempty lines read
  from the URL or, when the location has no URL scheme, from the file.
\<close>

theorem base_test_ids_distinct:
  assumes "snd (get_base_test_ids_from_list_file env insecure list_location) = Inr ids"
  shows "distinct ids \<and>
    (\<forall>text. requests_get env list_location (\<not> insecure) = Inr text \<longrightarrow>
       set ids = (\<lambda>l. fst (spec_entry l)) ` {l \<in> set (split_newline text). l \<noteq> []}) \<and>
    (\<forall>e content. requests_get env list_location (\<not> insecure) = Inl e \<longrightarrow>
       cls e = MissingSchema \<longrightarrow> open_read env list_location = Inr content \<longrightarrow>
       set ids = (\<lambda>l. fst (spec_entry l)) `
                   {l \<in> set (map rstrip_newline (file_lines content)). l \<noteq> []})"
proof (intro conjI allI impI)
  from assms show "distinct ids"
    by (auto simp: get_base_test_ids_from_list_file_def distinct_form
        split: sum.splits if_splits)
next
  fix body assume "requests_get env list_location (\<not> insecure) = Inr body"
  with assms have "ids = map fst (form_test_id_mappings (split_newline body))"
    by (simp add: get_base_test_ids_from_list_file_def)
  then show "set ids = (\<lambda>l. fst (spec_entry l)) ` {l \<in> set (split_newline body). l \<noteq> []}"
    using keys_form [of "split_newline body"] split_newline_clean by blast
next
  fix e content
  assume "requests_get env list_location (\<not> insecure) = Inl e" and "cls e = MissingSchema"
    and "open_read env list_location = Inr content"
  with assms have "ids = map fst (form_test_id_mappings (map rstrip_newline (file_lines content)))"
    by (simp add: get_base_test_ids_from_list_file_def)
  then show "set ids = (\<lambda>l. fst (spec_entry l)) `
                   {l \<in> set (map rstrip_newline (file_lines content)). l \<noteq> []}"
    using keys_form [of "map rstrip_newline (file_lines content)"] rstrip_file_lines_clean by blast
qed

theorem base_test_ids_distinct_witness:
  "snd (get_base_test_ids_from_list_file
          \<lparr>requests_get = (\<lambda>location verify. Inr (''t.a[x]'' @ [newline] @ ''t.a[y]'' @ [newline] @
                                    ''t.a[x]'' @ [newline] @ ''t.b'' @ [newline])),
           open_read = (\<lambda>location. Inl (Exc IOError ''No such file or directory''))\<rparr>
          False ''https://lists.example/tests.txt'') = Inr [''t.a'', ''t.b''] \<and>
   distinct [''t.a'', ''t.b'']"
proof -
  have run: "snd (get_base_test_ids_from_list_file
          \<lparr>requests_get = (\<lambda>location verify. Inr (''t.a[x]'' @ [newline] @ ''t.a[y]'' @ [newline] @
                                    ''t.a[x]'' @ [newline] @ ''t.b'' @ [newline])),
           open_read = (\<lambda>location. Inl (Exc IOError ''No such file or directory''))\<rparr>
          False ''https://lists.example/tests.txt'') = Inr [''t.a'', ''t.b'']"
    by code_simp
  from base_test_ids_distinct [OF run] run show ?thesis by blast
qed

subsection \<open>Normalisation\<close>

lemma foldl_get_full:
  "foldl (get_full_test_id d) st ids =
   (fst st @ map (\<lambda>t. full_test_id t (the (map_of d t))) (filter (\<lambda>t. map_of d t \<noteq> None) ids),
    snd st @ map (\<lambda>t. (DEBUG, ''Test '' @ t @ '' not found in Tempest list.''))
                 (filter (\<lambda>t. map_of d t = None) ids))"
proof (induction ids arbitrary: st)
  case Nil then show ?case by simp
next
  case (Cons t ts)
  then show ?case by (cases "map_of d t") (simp_all add: get_full_test_id_def)
qed

lemma fst_get_full:
  "fst (get_full_test_ids d ids) =
     map (\<lambda>t. full_test_id t (the (map_of d t))) (filter (\<lambda>t. map_of d t \<noteq> None) ids)"
  by (simp add: get_full_test_ids_def Let_def foldl_get_full)

lemma full_test_id_split:
  "attr \<noteq> [] \<Longrightarrow> CHR ''('' \<notin> set p \<Longrightarrow> full_test_id (p @ ''('' @ r) attr = p @ attr @ ''('' @ r"
  by (simp add: full_test_id_def takeWhile_append dropWhile_append)

text \<open>
  Claim C1. A requested base ID that the mapping holds contributes exactly one entry to
  the normalised list, at its place: the ID itself when its attributes are empty; the ID
  followed by the attributes when they are nonempty and the ID has no parenthesis; and,
  when they are nonempty and the ID is \<open>p(r\<close> with no parenthesis in \<open>p\<close>, the text
  \<open>p\<close>, the attributes, the parenthesis and \<open>r\<close>.
\<close>

theorem full_ids_emitted:
  assumes "map_of tempest_ids test_id = Some attr"
  shows "\<exists>e. fst (get_full_test_ids tempest_ids (xs @ test_id # ys)) =
               fst (get_full_test_ids tempest_ids xs) @ [e] @ fst (get_full_test_ids tempest_ids ys)
            \<and> (attr = [] \<longrightarrow> e = test_id)
            \<and> (attr \<noteq> [] \<and> CHR ''('' \<notin> set test_id \<longrightarrow> e = test_id @ attr)
            \<and> (\<forall>p r. attr \<noteq> [] \<and> test_id = p @ ''('' @ r \<and> CHR ''('' \<notin> set p \<longrightarrow>
                   e = p @ attr @ ''('' @ r)"
proof (intro exI [of _ "full_test_id test_id attr"] conjI allI impI)
  from assms show "fst (get_full_test_ids tempest_ids (xs @ test_id # ys)) =
     fst (get_full_test_ids tempest_ids xs) @ [full_test_id test_id attr] @
     fst (get_full_test_ids tempest_ids ys)"
    by (simp add: fst_get_full)
next
  assume "attr = []" then show "full_test_id test_id attr = test_id" by (simp add: full_test_id_def)
next
  assume "attr \<noteq> [] \<and> CHR ''('' \<notin> set test_id"
  then show "full_test_id test_id attr = test_id @ attr" by (simp add: full_test_id_def)
next
  fix p r assume "attr \<noteq> [] \<and> test_id = p @ ''('' @ r \<and> CHR ''('' \<notin> set p"
  then show "full_test_id test_id attr = p @ attr @ ''('' @ r"
    using full_test_id_split [of attr p r] by simp
qed

theorem full_ids_emitted_witness:
  "map_of [(''pkg.t2(variant)'', ''[id-3,smoke]'')] ''pkg.t2(variant)'' = Some ''[id-3,smoke]'' \<and>
   fst (get_full_test_ids [(''pkg.t2(variant)'', ''[id-3,smoke]'')] [''pkg.t2(variant)'']) =
     [''pkg.t2[id-3,smoke](variant)'']"
proof -
  have found: "map_of [(''pkg.t2(variant)'', ''[id-3,smoke]'')] ''pkg.t2(variant)'' = Some ''[id-3,smoke]''"
    by simp
  from full_ids_emitted [OF found, of "[]" "[]"] obtain e where
    e: "fst (get_full_test_ids [(''pkg.t2(variant)'', ''[id-3,smoke]'')] [''pkg.t2(variant)'']) =
          fst (get_full_test_ids [(''pkg.t2(variant)'', ''[id-3,smoke]'')] []) @ [e] @
          fst (get_full_test_ids [(''pkg.t2(variant)'', ''[id-3,smoke]'')] [])"
    and split: "\<forall>p r. ''[id-3,smoke]'' \<noteq> [] \<and> ''pkg.t2(variant)'' = p @ ''('' @ r \<and> CHR ''('' \<notin> set p
                  \<longrightarrow> e = p @ ''[id-3,smoke]'' @ ''('' @ r"
    by auto
  from split [rule_format, of "''pkg.t2''" "''variant)''"] have "e = ''pkg.t2[id-3,smoke](variant)''"
    by simp
  moreover have "fst (get_full_test_ids [(''pkg.t2(variant)'', ''[id-3,smoke]'')] []) = []"
    by (simp add: get_full_test_ids_def)
  ultimately show ?thesis using e found by simp
qed

text \<open>
  Claim C2. The normalised list is the requested list with the IDs absent from the
  mapping left out and every other ID rewritten where it stands, so order and
  repetitions are those of the request and the result is never longer than the
  request. An absent ID is not an error: the function has no failing branch, and what
  it logs (one line for each absent ID, then the number of tests) is logged at debug
  level only.
\<close>

theorem full_ids_filter_request:
  "fst (get_full_test_ids tempest_ids base_ids) =
     List.map_filter (\<lambda>t. map_option (full_test_id t) (map_of tempest_ids t)) base_ids \<and>
   length (fst (get_full_test_ids tempest_ids base_ids)) \<le> length base_ids \<and>
   snd (get_full_test_ids tempest_ids base_ids) =
     map (\<lambda>t. (DEBUG, ''Test '' @ t @ '' not found in Tempest list.''))
         (filter (\<lambda>t. map_of tempest_ids t = None) base_ids) @
     [(DEBUG, ''Number of tests: '' @ str_nat (length (fst (get_full_test_ids tempest_ids base_ids))))] \<and>
   (\<forall>entry \<in> set (snd (get_full_test_ids tempest_ids base_ids)). fst entry = DEBUG)"
proof -
  have out: "fst (get_full_test_ids tempest_ids base_ids) =
     List.map_filter (\<lambda>t. map_option (full_test_id t) (map_of tempest_ids t)) base_ids"
    unfolding fst_get_full map_filter_def
    by (rule map_cong) auto
  have len: "length (fst (get_full_test_ids tempest_ids base_ids)) \<le> length base_ids"
    by (simp add: fst_get_full)
  have lg: "snd (get_full_test_ids tempest_ids base_ids) =
     map (\<lambda>t. (DEBUG, ''Test '' @ t @ '' not found in Tempest list.''))
         (filter (\<lambda>t. map_of tempest_ids t = None) base_ids) @
     [(DEBUG, ''Number of tests: '' @ str_nat (length (fst (get_full_test_ids tempest_ids base_ids))))]"
    by (simp add: get_full_test_ids_def Let_def foldl_get_full)
  have "\<forall>entry \<in> set (snd (get_full_test_ids tempest_ids base_ids)). fst entry = DEBUG"
    unfolding lg by auto
  with out len lg show ?thesis by blast
qed

theorem full_ids_filter_request_witness:
  "fst (get_full_test_ids
          [(''pkg.t1'', ''[gate,id-2]''), (''pkg.t2(variant)'', ''[id-3,smoke]''), (''pkg.t3'', [])]
          [''pkg.t2(variant)'', ''pkg.gone'', ''pkg.t1'', ''pkg.t3'', ''pkg.t1'']) =
     [''pkg.t2[id-3,smoke](variant)'', ''pkg.t1[gate,id-2]'', ''pkg.t3'', ''pkg.t1[gate,id-2]''] \<and>
   snd (get_full_test_ids
          [(''pkg.t1'', ''[gate,id-2]''), (''pkg.t2(variant)'', ''[id-3,smoke]''), (''pkg.t3'', [])]
          [''pkg.t2(variant)'', ''pkg.gone'', ''pkg.t1'', ''pkg.t3'', ''pkg.t1'']) =
     [(DEBUG, ''Test pkg.gone not found in Tempest list.''), (DEBUG, ''Number of tests: 4'')]"
proof -
  have four: "str_nat (length [''pkg.t2[id-3,smoke](variant)'', ''pkg.t1[gate,id-2]'', ''pkg.t3'',
                               ''pkg.t1[gate,id-2]'']) = ''4''"
    by code_simp
  from full_ids_filter_request
    [of "[(''pkg.t1'', ''[gate,id-2]''), (''pkg.t2(variant)'', ''[id-3,smoke]''), (''pkg.t3'', [])]"
        "[''pkg.t2(variant)'', ''pkg.gone'', ''pkg.t1'', ''pkg.t3'', ''pkg.t1'']"]
  have out: "fst (get_full_test_ids
          [(''pkg.t1'', ''[gate,id-2]''), (''pkg.t2(variant)'', ''[id-3,smoke]''), (''pkg.t3'', [])]
          [''pkg.t2(variant)'', ''pkg.gone'', ''pkg.t1'', ''pkg.t3'', ''pkg.t1'']) =
     [''pkg.t2[id-3,smoke](variant)'', ''pkg.t1[gate,id-2]'', ''pkg.t3'', ''pkg.t1[gate,id-2]'']"
    and lg: "snd (get_full_test_ids
          [(''pkg.t1'', ''[gate,id-2]''), (''pkg.t2(variant)'', ''[id-3,smoke]''), (''pkg.t3'', [])]
          [''pkg.t2(variant)'', ''pkg.gone'', ''pkg.t1'', ''pkg.t3'', ''pkg.t1'']) =
     [(DEBUG, ''Test pkg.gone not found in Tempest list.''),
      (DEBUG, ''Number of tests: '' @ str_nat (length (fst (get_full_test_ids
          [(''pkg.t1'', ''[gate,id-2]''), (''pkg.t2(variant)'', ''[id-3,smoke]''), (''pkg.t3'', [])]
          [''pkg.t2(variant)'', ''pkg.gone'', ''pkg.t1'', ''pkg.t3'', ''pkg.t1'']))))]"
    by (simp_all add: map_filter_def full_test_id_def)
  from lg four show ?thesis unfolding out by (simp add: out)
qed

section \<open>Properties of the CPID fallback\<close>

text \<open>A digest is rendered as 32 characters.\<close>

lemma md5_hexdigest_length: "length (md5_hexdigest m) = 32"
proof -
  have "length (md5_digest m) = 16"
    by (simp add: md5_digest_def Let_def le_bytes_def split: prod.splits)
  then show ?thesis
    by (simp add: md5_hexdigest_def b2a_hex_def length_concat comp_def sum_list_triv)
qed

text \<open>The first and the third value of the test suite of RFC 1321, and the example's.\<close>

lemma md5_empty: "md5_hexdigest [] = ''d41d8cd98f00b204e9800998ecf8427e''"
  by code_simp

lemma md5_abc: "md5_hexdigest (encode_utf8 ''abc'') = ''900150983cd24fb0d6963f7d28e17f72''"
  by code_simp

lemma md5_cloud:
  "md5_hexdigest (encode_utf8 ''cloud.example.com'') = ''111d5bfb97c0767001d84c0d0449fdf8''"
  by code_simp




text \<open>The value of the example, computed.\<close>

lemma generate_cpid_cloud_value:
  "snd (generate_cpid_from_endpoint example_urlparse ''https://cloud.example.com:5000/v3'') =
     Inr ''111d5bfb97c0767001d84c0d0449fdf8''"
  by code_simp

text \<open>
  Claim C9. The claim is that the fallback succeeds for every endpoint whose scheme is
  \<open>http\<close> or \<open>https\<close>. The endpoint \<open>http:///v3\<close> has the scheme \<open>http\<close> and no host
  name: \<open>url_parts.hostname\<close> is \<open>None\<close>, and calling \<open>encode\<close> on it raises
  \<open>AttributeError\<close>.
\<close>

theorem generate_cpid_without_host:
  "example_urlparse ''http:///v3'' = Inr \<lparr>scheme = ''http'', hostname = None\<rparr> \<and>
   snd (generate_cpid_from_endpoint example_urlparse ''http:///v3'') =
     Inl (Exc AttributeError (squote ''NoneType'' @ '' object has no attribute '' @ squote ''encode''))"
  by code_simp

section \<open>Properties of the submission\<close>

text \<open>
  Claim C6, as stated: when the private key cannot be loaded, the results are posted
  without the signature headers. With a key file whose text is not a key, and a server
  that would accept the results, \<open>post_results\<close> sends no request at all.
\<close>

theorem post_results_bad_key_posts_nothing:
  "posted (post_results bad_key_env ''https://refstack.example'' ''{}'' (Some ''key.pem'')) = [] \<and>
   raised (post_results bad_key_env ''https://refstack.example'' ''{}'' (Some ''key.pem'')) = None \<and>
   logged (post_results bad_key_env ''https://refstack.example'' ''{}'' (Some ''key.pem'')) =
     [(DEBUG, ''API request content: {} ''),
      (INFO, ''Error during upload key pair key.pem''),
      (ERROR, ''Could not deserialize key data.'')]"
  by (simp add: post_results_def sign_headers_def bad_key_env_def)

text \<open>
  Claim C6, amended. When \<open>sign_with\<close> names a key file and reading the opened file or
  loading the key raises \<open>IOError\<close>, \<open>UnsupportedAlgorithm\<close> or \<open>ValueError\<close>, the
  function logs one record at info level and the exception at error level and returns:
  nothing is posted, with or without signature headers, and nothing is raised.
\<close>

theorem post_results_key_failure_aborts:
  assumes "sign_with = Some path" and "path \<noteq> []"
    and "open_file env path = Inr fl"
    and "file_read fl = Inl e \<or>
         (\<exists>pem. file_read fl = Inr pem \<and> load_pem_private_key env (encode_utf8 pem) = Inl e)"
    and "cls e \<in> {IOError, UnsupportedAlgorithm, ValueError}"
  shows "post_results env url content sign_with =
           \<lparr>logged = [(DEBUG, ''API request content: '' @ content_str env content @ '' ''),
                      (INFO, ''Error during upload key pair '' @ file_repr fl),
                      (ERROR, message e)],
            posted = [], printed = [], raised = None\<rparr>"
  using assms
  by (auto simp: post_results_def sign_headers_def Let_def)

theorem post_results_key_failure_aborts_witness:
  "post_results bad_key_env ''https://refstack.example'' ''{}'' (Some ''key.pem'') =
     \<lparr>logged = [(DEBUG, ''API request content: {} ''),
                (INFO, ''Error during upload key pair key.pem''),
                (ERROR, ''Could not deserialize key data.'')],
      posted = [], printed = [], raised = None\<rparr>"
proof -
  have opened: "open_file bad_key_env ''key.pem'' =
                  Inr \<lparr>file_repr = ''key.pem'', file_read = Inr ''not a key''\<rparr>"
    by (simp add: bad_key_env_def)
  have failed: "file_read \<lparr>file_repr = ''key.pem'', file_read = Inr ''not a key''\<rparr> =
                  Inl (Exc ValueError ''Could not deserialize key data.'') \<or>
                (\<exists>pem. file_read \<lparr>file_repr = ''key.pem'', file_read = Inr ''not a key''\<rparr> = Inr pem \<and>
                       load_pem_private_key bad_key_env (encode_utf8 pem) =
                         Inl (Exc ValueError ''Could not deserialize key data.''))"
    by (simp add: bad_key_env_def)
  have caught: "cls (Exc ValueError ''Could not deserialize key data.'') \<in>
                  {IOError, UnsupportedAlgorithm, ValueError}"
    by simp
  from post_results_key_failure_aborts [OF refl _ opened failed caught,
         of "''https://refstack.example''" "''{}''"]
  show ?thesis by (simp add: bad_key_env_def)
qed

section \<open>Properties of the retrieval\<close>

lemma for_loop_after_yield:
  assumes ok: "\<forall>p. 1 \<le> p \<and> p \<le> n \<longrightarrow>
          requests_get_page env (page_request env url f p) =
            Inr \<lparr>status_error = None, json_body = Inr \<lparr>results = rs p, total_pages = Some n\<rparr>\<rparr>"
  shows "1 \<le> p \<Longrightarrow> p \<le> n \<Longrightarrow> nat (n - p) < fuel \<Longrightarrow>
         for_loop fuel env generator_stop url f (AfterYield p (Some n)) =
           (map (\<lambda>q. case rs q of None \<Rightarrow> [] | Some r \<Rightarrow> r) [p + 1..n], [],
            end_of_iteration generator_stop)"
proof (induction fuel arbitrary: p)
  case 0
  then show ?case by simp
next
  case (Suc fuel)
  show ?case
  proof (cases "n = p")
    case True
    then show ?thesis
      by (simp add: gen_next_def raise_StopIteration_def end_of_iteration_def)
  next
    case False
    with Suc.prems have p1: "1 \<le> p + 1" "p + 1 \<le> n" "nat (n - (p + 1)) < fuel" by auto
    from ok p1 have req: "requests_get_page env (page_request env url f (p + 1)) =
            Inr \<lparr>status_error = None, json_body = Inr \<lparr>results = rs (p + 1), total_pages = Some n\<rparr>\<rparr>"
      by blast
    have up: "[p + 1..n] = (p + 1) # [p + 1 + 1..n]"
      using p1 by (simp add: upto_rec1)
    from False req Suc.IH [OF p1] show ?thesis
      unfolding up by (simp add: gen_next_def request_page_def)
  qed
qed

lemma paged_env_ok:
  "requests_get_page (paged_env n) (page_request (paged_env n) url f p) =
     Inr \<lparr>status_error = None,
          json_body = Inr \<lparr>results = Some (replicate (nat p) ''result''), total_pages = Some n\<rparr>\<rparr>"
  by (simp add: paged_env_def page_request_def page_params_def)

text \<open>
  Claim C7, as stated, covers a server that reports zero pages: the generator should
  then yield no batch. It yields the batch of page 1, finds that the total is not 1,
  and goes on to page 2 and further for as long as the requests succeed.
\<close>

theorem yield_results_zero_pages_goes_on:
  "for_loop 3 (paged_env 0) False ''https://refstack.example'' no_filters (yield_results 1) =
     ([[''result''], [''result'', ''result''], [''result'', ''result'', ''result'']], [], Pending)"
  by code_simp

text \<open>
  Claim C7, amended. Against a server that reports \<open>n \<ge> 1\<close> pages and answers the
  requests for the pages 1 to \<open>n\<close>, a loop over \<open>yield_results\<close> started at page 1
  receives exactly the batches of the pages 1 to \<open>n\<close>, in this order, and then ends:
  no batch is repeated, none is skipped, and no batch follows them.
\<close>

theorem yield_results_pages_in_order:
  assumes "1 \<le> n"
    and "\<forall>p. 1 \<le> p \<and> p \<le> n \<longrightarrow>
          requests_get_page env (page_request env url f p) =
            Inr \<lparr>status_error = None, json_body = Inr \<lparr>results = rs p, total_pages = Some n\<rparr>\<rparr>"
    and "nat n < fuel"
  shows "fst (for_loop fuel env generator_stop url f (yield_results 1)) =
           map (\<lambda>p. case rs p of None \<Rightarrow> [] | Some r \<Rightarrow> r) [1..n] \<and>
         snd (snd (for_loop fuel env generator_stop url f (yield_results 1))) \<noteq> Pending"
proof -
  from assms(3) obtain k where fuel: "fuel = Suc k" by (cases fuel) auto
  with assms have k: "nat (n - 1) < k" by auto
  from assms have req: "requests_get_page env (page_request env url f 1) =
            Inr \<lparr>status_error = None, json_body = Inr \<lparr>results = rs 1, total_pages = Some n\<rparr>\<rparr>"
    by simp
  have up: "[1..n] = 1 # [1 + 1..n]" using assms(1) by (simp add: upto_rec1)
  from for_loop_after_yield [OF assms(2) _ assms(1) k, of generator_stop] req
  show ?thesis
    unfolding fuel up
    by (simp add: yield_results_def gen_next_def request_page_def end_of_iteration_def)
qed

theorem yield_results_pages_in_order_witness:
  "fst (for_loop 4 (paged_env 3) False ''https://refstack.example'' no_filters (yield_results 1)) =
     [[''result''], [''result'', ''result''], [''result'', ''result'', ''result'']] \<and>
   snd (snd (for_loop 4 (paged_env 3) False ''https://refstack.example'' no_filters
               (yield_results 1))) \<noteq> Pending"
proof -
  have three: "[1..3::int] = [1, 2, 3]" by code_simp
  from yield_results_pages_in_order
        [of 3 "paged_env 3" "''https://refstack.example''" no_filters
            "\<lambda>p. Some (replicate (nat p) ''result'')" 4 False]
  show ?thesis by (simp add: paged_env_ok three numeral_3_eq_3 numeral_2_eq_2)
qed

text \<open>
  An HTTP error on a page request, raised by \<open>requests.get\<close> or by
  \<open>raise_for_status\<close>, is logged at info level and the body raises \<open>StopIteration\<close>:
  the generator is finished and yields nothing for this page.
\<close>

lemma http_error_ends_generator:
  assumes "requests_get_page env (page_request env url f page) = Inl e \<and> cls e = HTTPError \<and> m = message e \<or>
           (\<exists>resp. requests_get_page env (page_request env url f page) = Inr resp \<and> status_error resp = Some m)"
  shows "request_page env generator_stop url f page =
           (raise_StopIteration generator_stop, Finished,
            [(INFO, ''Failed to list '' @ url @ ''/v1/results/'' @ '' - '' @ m @ '' '')])"
  using assms by (auto simp: request_page_def)

lemma http_error_without_generator_stop:
  "for_loop 2 failing_env False ''https://refstack.example'' no_filters (yield_results 1) =
     ([], [(INFO, ''Failed to list https://refstack.example/v1/results/ - 500 Server Error '')],
      Exhausted)"
  by code_simp

text \<open>
  Claim C8. The claim is that an HTTP error on a page request ends the sequence without
  a fault reaching the caller. Where PEP 479 is in force, the \<open>StopIteration\<close> raised
  in the body of the generator reaches the loop over it as \<open>RuntimeError\<close>: with a
  server that answers the first request with status 500, the error is logged and the
  loop ends with that exception.
\<close>

theorem yield_results_http_error_reaches_caller:
  "for_loop 2 failing_env True ''https://refstack.example'' no_filters (yield_results 1) =
     ([], [(INFO, ''Failed to list https://refstack.example/v1/results/ - 500 Server Error '')],
      Raised (Exc RuntimeError ''generator raised StopIteration''))"
  by code_simp

end
